theory Spec2Isabelle
  imports Main "HOL-Library.Word"
begin

section \<open>Python values and containers used by chatGPT-HDF5reader.py\<close>

text \<open>
  The model follows \<^verbatim>\<open>src/hdf5Work/chatGPT-HDF5reader.py\<close>: \<^verbatim>\<open>classify_datasets\<close>
  (lines 6 to 61) and \<^verbatim>\<open>build_jsonld\<close> (lines 64 to 101).

  HDF5 link names and dtype tags are \<open>string\<close>s. Text produced by decoding bytes is a list
  of Unicode code points. A Python exception is a value of \<open>py_exception\<close>; a computation
  that may raise returns \<open>py_exception + 'a\<close> with \<open>Inl\<close> for the raise.
\<close>

type_synonym byte = "8 word"

type_synonym pytext = "nat list"

datatype py_exception = TypeError | KeyError | IndexError | UnicodeDecodeError

text \<open>A raise ends the computation; otherwise the next step runs on the result.\<close>

definition bind_exc :: "py_exception + 'a \<Rightarrow> ('a \<Rightarrow> py_exception + 'b) \<Rightarrow> py_exception + 'b" where
  "bind_exc r f = (case r of Inl e \<Rightarrow> Inl e | Inr x \<Rightarrow> f x)"

text \<open>
  Attribute values as h5py hands them over: \<open>NpBytes\<close> is \<^verbatim>\<open>numpy.bytes_\<close> (a
  fixed-length HDF5 string), \<open>PyBytes\<close> is the builtin \<^verbatim>\<open>bytes\<close>, \<open>NdArray\<close> is
  \<^verbatim>\<open>numpy.ndarray\<close>, \<open>PyFloat\<close> carries the IEEE bits of a float unchanged.
\<close>

datatype pyval =
    NpBytes "byte list"
  | PyBytes "byte list"
  | PyStr string
  | PyInt int
  | PyFloat "64 word"
  | NdArray "pyval list"
  | PyList "pyval list"

text \<open>
  A \<^verbatim>\<open>dict\<close> is an association list in insertion order. \<^verbatim>\<open>d[k] = v\<close> replaces the
  value of an existing key in place and appends a new key at the end.
\<close>

fun dict_set :: "('k \<times> 'v) list \<Rightarrow> 'k \<Rightarrow> 'v \<Rightarrow> ('k \<times> 'v) list" where
  "dict_set [] k v = [(k, v)]"
| "dict_set ((k', v') # kvs) k v =
     (if k' = k then (k, v) # kvs else (k', v') # dict_set kvs k v)"

text \<open>\<^verbatim>\<open>d[k]\<close> raises KeyError on a missing key.\<close>

definition dict_get :: "('k \<times> 'v) list \<Rightarrow> 'k \<Rightarrow> py_exception + 'v" where
  "dict_get d k = (case map_of d k of None \<Rightarrow> Inl KeyError | Some v \<Rightarrow> Inr v)"

text \<open>
  A \<^verbatim>\<open>set\<close> of names is a duplicate-free list. Python leaves the iteration order of a
  set unspecified; the functions below take the sequence that the iteration yields as
  an argument wherever the source iterates over the set.
\<close>

definition set_add :: "'a list \<Rightarrow> 'a \<Rightarrow> 'a list" where
  "set_add s x = (if x \<in> set s then s else s @ [x])"

section \<open>The descriptor collection (lines 12 to 25)\<close>

text \<open>
  \<^verbatim>\<open>info["shape"]\<close> is \<^verbatim>\<open>obj.shape\<close>: a tuple of axis lengths, or \<^verbatim>\<open>None\<close> for a
  dataset with a null dataspace (\<^verbatim>\<open>h5py.Empty\<close>).
\<close>

record info =
  path :: string
  shape :: "nat list option"
  dtype :: string
  attrs :: "(pyval \<times> pyval) list"
  dims :: "string list"

type_synonym datasets_info = "(string \<times> info) list"

text \<open>
  An object met by \<^verbatim>\<open>h5file.visititems\<close>. \<open>Dataset\<close> is a dataset with a tuple as
  \<^verbatim>\<open>obj.shape\<close>, followed by what reading \<^verbatim>\<open>str(obj.dtype)\<close>, the items of
  \<^verbatim>\<open>obj.attrs\<close> and the labels \<^verbatim>\<open>d.label\<close> of \<^verbatim>\<open>obj.dims\<close> gives: each read
  returns or raises (h5py raises TypeError on \<^verbatim>\<open>obj.dtype\<close> for an HDF5 type it has
  no numpy type for). \<open>NullDataset\<close> is a dataset with a null dataspace: its shape is
  \<^verbatim>\<open>None\<close> and \<^verbatim>\<open>obj.dims\<close> is empty. \<open>Group\<close> stands for every object that is not
  an \<^verbatim>\<open>h5py.Dataset\<close>. The file is the list of (name, object) pairs in the order of
  the visit.
\<close>

datatype h5obj =
    Group
  | Dataset "nat list" "py_exception + string" "py_exception + (pyval \<times> pyval) list"
      "py_exception + string list"
  | NullDataset "py_exception + string" "py_exception + (pyval \<times> pyval) list"

text \<open>\<^verbatim>\<open>ndarray.tolist()\<close>: nested arrays become nested lists, numpy byte strings become
  builtin bytes.\<close>

fun tolist_item :: "pyval \<Rightarrow> pyval" where
  "tolist_item (NpBytes b) = PyBytes b"
| "tolist_item (NdArray vs) = PyList (map tolist_item vs)"
| "tolist_item v = v"

text \<open>Line 20: \<^verbatim>\<open>v.tolist() if isinstance(v, np.ndarray) else v\<close>.\<close>

fun attr_convert :: "pyval \<Rightarrow> pyval" where
  "attr_convert (NdArray vs) = PyList (map tolist_item vs)"
| "attr_convert v = v"

definition attrs_dict :: "(pyval \<times> pyval) list \<Rightarrow> (pyval \<times> pyval) list" where
  "attrs_dict items = foldl (\<lambda>d (k, v). dict_set d k (attr_convert v)) [] items"

text \<open>
  Lines 16 to 23. The values of the dict literal are read in the order shape, dtype,
  attrs, dims, outside any \<^verbatim>\<open>try\<close>: the first read that raises ends the visit, and
  nothing is stored for the dataset.
\<close>

definition store_info ::
  "datasets_info \<Rightarrow> string \<Rightarrow> nat list option \<Rightarrow> py_exception + string
     \<Rightarrow> py_exception + (pyval \<times> pyval) list \<Rightarrow> py_exception + string list
     \<Rightarrow> py_exception + datasets_info" where
  "store_info di name shp dtype_read attrs_read labels_read =
     bind_exc dtype_read (\<lambda>tag.
     bind_exc attrs_read (\<lambda>items.
     bind_exc labels_read (\<lambda>labels.
       Inr (dict_set di name
         \<lparr>path = name, shape = shp, dtype = tag, attrs = attrs_dict items, dims = labels\<rparr>))))"

fun visitor :: "datasets_info \<Rightarrow> string \<Rightarrow> h5obj \<Rightarrow> py_exception + datasets_info" where
  "visitor di name Group = Inr di"
| "visitor di name (Dataset shp dtype_read attrs_read labels_read) =
     store_info di name (Some shp) dtype_read attrs_read labels_read"
| "visitor di name (NullDataset dtype_read attrs_read) =
     store_info di name None dtype_read attrs_read (Inr [])"

text \<open>Line 25. An exception of the visitor leaves \<^verbatim>\<open>visititems\<close>.\<close>

fun visit_from :: "datasets_info \<Rightarrow> (string \<times> h5obj) list \<Rightarrow> py_exception + datasets_info" where
  "visit_from di [] = Inr di"
| "visit_from di ((name, obj) # rest) =
     bind_exc (visitor di name obj) (\<lambda>di'. visit_from di' rest)"

definition visititems :: "(string \<times> h5obj) list \<Rightarrow> py_exception + datasets_info" where
  "visititems h5file = visit_from [] h5file"

section \<open>Dimension candidates (lines 28 to 39)\<close>

text \<open>What the \<^verbatim>\<open>print\<close> calls write: line 43 (\<open>NameShape\<close>), and lines 39 and 59, which
  are the same call (\<open>Diagnostic\<close>).\<close>

datatype printed =
    NameShape string "nat list option"
  | Diagnostic string "nat list option" "string list"

text \<open>
  Lines 31 to 37, the body of the \<^verbatim>\<open>try\<close>: the set after the body, or the exception.
  \<^verbatim>\<open>len(None)\<close> raises TypeError in line 31, before anything is added. The test
  \<^verbatim>\<open>d and d != ""\<close> on a string is \<open>d \<noteq> []\<close> twice.
\<close>

definition candidate_body :: "string list \<Rightarrow> string \<Rightarrow> info \<Rightarrow> py_exception + string list" where
  "candidate_body s name nfo =
     (case shape nfo of
        None \<Rightarrow> Inl TypeError
      | Some shp \<Rightarrow>
          Inr (foldl (\<lambda>acc d. if d \<noteq> [] \<and> d \<noteq> [] then set_add acc name else acc)
                 (if length shp = 1 then set_add s name else s) (dims nfo)))"

text \<open>One round of the loop of line 29 on the pair (set, standard output); the handler
  of lines 38 and 39 prints and goes on.\<close>

definition candidate_step ::
  "string list \<times> printed list \<Rightarrow> string \<times> info \<Rightarrow> string list \<times> printed list" where
  "candidate_step st ni =
     (let name = fst ni; nfo = snd ni
      in case candidate_body (fst st) name nfo of
           Inr s \<Rightarrow> (s, snd st)
         | Inl e \<Rightarrow> (fst st, snd st @ [Diagnostic name (shape nfo) (dims nfo)]))"

definition dim_candidates :: "datasets_info \<Rightarrow> string list \<times> printed list" where
  "dim_candidates di = foldl candidate_step ([], []) di"

section \<open>The taxonomy classifier (lines 42 to 61)\<close>

record classification =
  measures_grp :: "info list"
  dimensions :: "info list"
  attributes :: "info list"

datatype grp = Measures | Dimensions | Attributes

text \<open>
  \<^verbatim>\<open>np.issubdtype(np.dtype(tag), np.number)\<close> belongs to numpy. It is a parameter of the
  model: for a tag it either raises (numpy does not understand the tag) or tells
  whether the type is numeric.
\<close>

type_synonym numpy = "string \<Rightarrow> py_exception + bool"

text \<open>
  \<^verbatim>\<open>str.lower\<close> on the letters A to Z; every other character is kept. Names are
  sequences of 8-bit characters here. Python also lower-cases letters outside ASCII, but
  none of them becomes one of the letters of "time" next to another one (U+0130 becomes
  \<^verbatim>\<open>i\<close> followed by a combining dot), so the test of line 47 is not affected.
\<close>

definition lower_char :: "char \<Rightarrow> char" where
  "lower_char c =
     (case map_of (zip ''ABCDEFGHIJKLMNOPQRSTUVWXYZ'' ''abcdefghijklmnopqrstuvwxyz'') c of
        None \<Rightarrow> c
      | Some l \<Rightarrow> l)"

definition lower :: "string \<Rightarrow> string" where
  "lower s = map lower_char s"

text \<open>\<^verbatim>\<open>sub in s\<close> on strings: \<open>sub\<close> occurs in \<open>s\<close> as a contiguous block.\<close>

fun str_contains :: "string \<Rightarrow> string \<Rightarrow> bool" where
  "str_contains sub [] = (sub = [])"
| "str_contains sub (c # cs) = (take (length sub) (c # cs) = sub \<or> str_contains sub cs)"

text \<open>
  Line 54: \<^verbatim>\<open>[datasets_info[d]["shape"][0] for d in dim_candidates if datasets_info[d]["shape"]]\<close>,
  over the sequence \<open>it\<close> that iterating the set yields. \<^verbatim>\<open>None\<close> and the empty tuple
  are both false in the filter.
\<close>

fun dim_lens :: "datasets_info \<Rightarrow> string list \<Rightarrow> py_exception + nat list" where
  "dim_lens di [] = Inr []"
| "dim_lens di (d # it) =
     (case dict_get di d of
        Inl e \<Rightarrow> Inl e
      | Inr nfo \<Rightarrow>
          (case shape nfo of
             None \<Rightarrow> dim_lens di it
           | Some [] \<Rightarrow> dim_lens di it
           | Some (n # _) \<Rightarrow>
               (case dim_lens di it of Inl e \<Rightarrow> Inl e | Inr ls \<Rightarrow> Inr (n # ls))))"

text \<open>
  Line 53: \<^verbatim>\<open>any(len(info["shape"]) > 0 and dim_len in info["shape"] for dim_len in ls)\<close>.
  The test runs once per element until one is true; on the shape \<^verbatim>\<open>None\<close> the first
  run raises TypeError, and over an empty list no test runs.
\<close>

fun any_aligned :: "nat list option \<Rightarrow> nat list \<Rightarrow> py_exception + bool" where
  "any_aligned shp [] = Inr False"
| "any_aligned shp (dim_len # ls) =
     (case shp of
        None \<Rightarrow> Inl TypeError
      | Some s \<Rightarrow> if length s > 0 \<and> dim_len \<in> set s then Inr True else any_aligned shp ls)"

text \<open>
  Lines 45 to 57, the body of the \<^verbatim>\<open>try\<close> for one descriptor: the group it is
  appended to, or the exception raised before any append. In line 47 numpy is asked
  first, so a raise there wins over the test for "time".
\<close>

definition classify_node ::
  "numpy \<Rightarrow> datasets_info \<Rightarrow> string list \<Rightarrow> string \<Rightarrow> info \<Rightarrow> py_exception + grp" where
  "classify_node np di cands name nfo =
     (if name \<in> set cands then
        bind_exc (np (dtype nfo)) (\<lambda>numeric.
          Inr (if numeric \<or> str_contains ''time'' (lower name) then Dimensions
               else Attributes))
      else
        bind_exc (dim_lens di cands) (\<lambda>ls.
        bind_exc (any_aligned (shape nfo) ls) (\<lambda>aligned.
          Inr (if aligned then Measures else Attributes))))"

definition append_to :: "grp \<Rightarrow> info \<Rightarrow> classification \<Rightarrow> classification" where
  "append_to g nfo c =
     (case g of
        Measures \<Rightarrow> c\<lparr>measures_grp := measures_grp c @ [nfo]\<rparr>
      | Dimensions \<Rightarrow> c\<lparr>dimensions := dimensions c @ [nfo]\<rparr>
      | Attributes \<Rightarrow> c\<lparr>attributes := attributes c @ [nfo]\<rparr>)"

text \<open>
  One round of the loop of line 42 on the pair (classification, standard output).
  The handler of lines 58 and 59 prints and does nothing else.
\<close>

definition classify_step ::
  "numpy \<Rightarrow> datasets_info \<Rightarrow> string list \<Rightarrow> classification \<times> printed list \<Rightarrow> string \<times> info
     \<Rightarrow> classification \<times> printed list" where
  "classify_step np di cands st ni =
     (let name = fst ni; nfo = snd ni; c = fst st;
          out = snd st @ [NameShape name (shape nfo)]
      in case classify_node np di cands name nfo of
           Inr g \<Rightarrow> (append_to g nfo c, out)
         | Inl e \<Rightarrow> (c, out @ [Diagnostic name (shape nfo) (dims nfo)]))"

definition classify_loop ::
  "numpy \<Rightarrow> datasets_info \<Rightarrow> string list \<Rightarrow> classification \<times> printed list" where
  "classify_loop np di cands =
     foldl (classify_step np di cands)
       (\<lparr>measures_grp = [], dimensions = [], attributes = []\<rparr>, []) di"

text \<open>
  Lines 6 to 61. The function raises what the visit raises. Otherwise the first
  component is the classification that it returns, the second one what the two loops
  have printed.
\<close>

definition classify_datasets ::
  "numpy \<Rightarrow> (string \<times> h5obj) list \<Rightarrow> py_exception + classification \<times> printed list" where
  "classify_datasets np h5file =
     bind_exc (visititems h5file) (\<lambda>di.
       let cands = dim_candidates di; r = classify_loop np di (fst cands)
       in Inr (fst r, snd cands @ snd r))"

section \<open>Decoding bytes (line 80)\<close>

text \<open>
  \<^verbatim>\<open>bytes.decode("utf-8", errors=...)\<close> of the Python runtime. A well-formed sequence of
  one to four bytes yields its code point. At an ill-formed sequence the error handler
  runs on the longest prefix of it that could start a well-formed sequence (at least one
  byte): \<^verbatim>\<open>strict\<close> raises UnicodeDecodeError, \<^verbatim>\<open>replace\<close> yields U+FFFD (65533)
  and decoding goes on behind that prefix.
\<close>

datatype errors_mode = Strict | Replace

text \<open>\<open>emit\<close> puts a code point in front of the text that the rest of the input decodes
  to; \<open>decode_error\<close> is the error handler of the mode.\<close>

definition emit :: "nat \<Rightarrow> py_exception + pytext \<Rightarrow> py_exception + pytext" where
  "emit cp rest = bind_exc rest (\<lambda>t. Inr (cp # t))"

definition decode_error :: "errors_mode \<Rightarrow> py_exception + pytext \<Rightarrow> py_exception + pytext" where
  "decode_error m rest =
     (case m of Strict \<Rightarrow> Inl UnicodeDecodeError | Replace \<Rightarrow> emit 65533 rest)"

definition is_cont :: "nat \<Rightarrow> bool" where
  "is_cont n = (128 \<le> n \<and> n < 192)"

text \<open>The second byte after lead byte \<open>n\<close>: a continuation byte that excludes overlong
  forms (E0, F0), surrogates (ED) and code points above U+10FFFF (F4).\<close>

definition second_ok :: "nat \<Rightarrow> nat \<Rightarrow> bool" where
  "second_ok n n2 =
     (is_cont n2 \<and> (n = 224 \<longrightarrow> 160 \<le> n2) \<and> (n = 237 \<longrightarrow> n2 < 160)
        \<and> (n = 240 \<longrightarrow> 144 \<le> n2) \<and> (n = 244 \<longrightarrow> n2 < 144))"

text \<open>
  One step of the decoder at lead byte \<open>b\<close> followed by \<open>bs\<close>: the code point of a
  well-formed sequence, or \<open>None\<close> for an ill-formed one, and the number of bytes of
  \<open>bs\<close> that the step consumes. An ill-formed sequence consumes its longest prefix that
  could start a well-formed one; at the end of the data that is all that is left.
\<close>

definition utf8_next :: "byte \<Rightarrow> byte list \<Rightarrow> nat option \<times> nat" where
  "utf8_next b bs =
     (let n = unat b in
      if n < 128 then (Some n, 0)
      else if n < 194 \<or> 244 < n then (None, 0)
      else if n < 224 then
        (case bs of
           [] \<Rightarrow> (None, 0)
         | b2 # r2 \<Rightarrow>
             if is_cont (unat b2) then (Some ((n - 192) * 64 + (unat b2 - 128)), 1)
             else (None, 0))
      else if n < 240 then
        (case bs of
           [] \<Rightarrow> (None, 0)
         | b2 # r2 \<Rightarrow>
             if \<not> second_ok n (unat b2) then (None, 0)
             else
               (case r2 of
                  [] \<Rightarrow> (None, 1)
                | b3 # r3 \<Rightarrow>
                    if is_cont (unat b3)
                    then (Some ((n - 224) * 4096 + (unat b2 - 128) * 64 + (unat b3 - 128)), 2)
                    else (None, 1)))
      else
        (case bs of
           [] \<Rightarrow> (None, 0)
         | b2 # r2 \<Rightarrow>
             if \<not> second_ok n (unat b2) then (None, 0)
             else
               (case r2 of
                  [] \<Rightarrow> (None, 1)
                | b3 # r3 \<Rightarrow>
                    if \<not> is_cont (unat b3) then (None, 1)
                    else
                      (case r3 of
                         [] \<Rightarrow> (None, 2)
                       | b4 # r4 \<Rightarrow>
                           if is_cont (unat b4)
                           then (Some ((n - 240) * 262144 + (unat b2 - 128) * 4096
                                         + (unat b3 - 128) * 64 + (unat b4 - 128)), 3)
                           else (None, 2)))))"

fun utf8_decode :: "errors_mode \<Rightarrow> byte list \<Rightarrow> py_exception + pytext" where
  "utf8_decode m [] = Inr []"
| "utf8_decode m (b # bs) =
     (case utf8_next b bs of
        (Some cp, k) \<Rightarrow> emit cp (utf8_decode m (drop k bs))
      | (None, k) \<Rightarrow> decode_error m (utf8_decode m (drop k bs)))"

section \<open>The linked-data assembler (lines 64 to 101)\<close>

record property_value =
  pv_type :: string
  pv_name :: "pytext option"
  pv_value :: "pytext option"

record variable =
  var_type :: string
  var_name :: string
  var_dataset :: string
  var_encodingFormat :: string
  var_role :: string
  var_additionalProperty :: "property_value list"

record jsonld =
  ld_context :: "(string \<times> string) list"
  ld_type :: string
  ld_name :: string
  variableMeasured :: "variable list"

text \<open>
  Lines 78 to 80. The function has no \<^verbatim>\<open>return\<close> for an argument that is not a
  \<^verbatim>\<open>numpy.bytes_\<close>: Python then returns \<^verbatim>\<open>None\<close>, here \<open>None\<close> of the option type.
\<close>

fun checkForBytes :: "pyval \<Rightarrow> py_exception + pytext option" where
  "checkForBytes (NpBytes b) = bind_exc (utf8_decode Replace b) (\<lambda>t. Inr (Some t))"
| "checkForBytes v = Inr None"

text \<open>Lines 88 to 91, the list comprehension over \<^verbatim>\<open>info["attrs"].items()\<close>.\<close>

fun additional_properties :: "(pyval \<times> pyval) list \<Rightarrow> py_exception + property_value list" where
  "additional_properties [] = Inr []"
| "additional_properties ((k, v) # kvs) =
     bind_exc (checkForBytes k) (\<lambda>nm.
     bind_exc (checkForBytes v) (\<lambda>vl.
     bind_exc (additional_properties kvs) (\<lambda>ps.
       Inr (\<lparr>pv_type = ''PropertyValue'', pv_name = nm, pv_value = vl\<rparr> # ps))))"

text \<open>\<^verbatim>\<open>s.split(sep)\<close> for a one-character separator, and \<^verbatim>\<open>xs[-1]\<close>.\<close>

fun split_on :: "char \<Rightarrow> string \<Rightarrow> string list" where
  "split_on sep [] = [[]]"
| "split_on sep (c # cs) =
     (if c = sep then [] # split_on sep cs
      else (case split_on sep cs of [] \<Rightarrow> [[c]] | w # ws \<Rightarrow> (c # w) # ws))"

definition last_item :: "'a list \<Rightarrow> py_exception + 'a" where
  "last_item xs = (if xs = [] then Inl IndexError else Inr (last xs))"

text \<open>Lines 81 to 92.\<close>

definition add_var :: "jsonld \<Rightarrow> info \<Rightarrow> string \<Rightarrow> py_exception + jsonld" where
  "add_var doc nfo role =
     bind_exc (last_item (split_on CHR ''/'' (path nfo))) (\<lambda>nm.
     bind_exc (additional_properties (attrs nfo)) (\<lambda>props.
       Inr (doc\<lparr>variableMeasured := variableMeasured doc @
              [\<lparr>var_type = ''PropertyValue'',
                var_name = nm,
                var_dataset = ''/'' @ path nfo,
                var_encodingFormat = ''application/x-hdf5'',
                var_role = role,
                var_additionalProperty = props\<rparr>]\<rparr>)))"

text \<open>One \<^verbatim>\<open>for info in classification[...]\<close> loop of lines 94 to 99.\<close>

fun add_vars :: "jsonld \<Rightarrow> info list \<Rightarrow> string \<Rightarrow> py_exception + jsonld" where
  "add_vars doc [] role = Inr doc"
| "add_vars doc (nfo # rest) role = bind_exc (add_var doc nfo role) (\<lambda>doc'. add_vars doc' rest role)"

definition build_jsonld :: "classification \<Rightarrow> string \<Rightarrow> py_exception + jsonld" where
  "build_jsonld c dataset_name =
     bind_exc (add_vars
        \<lparr>ld_context = [(''@vocab'', ''https://schema.org/''),
                       (''ddi'', ''https://ddi-alliance.org/ns/cdi#'')],
         ld_type = ''Dataset'',
         ld_name = dataset_name,
         variableMeasured = []\<rparr> (measures_grp c) ''Measure'') (\<lambda>doc1.
     bind_exc (add_vars doc1 (dimensions c) ''Dimension'') (\<lambda>doc2.
     add_vars doc2 (attributes c) ''Attribute''))"

text \<open>Lines 111 to 114 of the script: classify, then assemble.\<close>

definition pipeline :: "numpy \<Rightarrow> (string \<times> h5obj) list \<Rightarrow> string \<Rightarrow> py_exception + jsonld" where
  "pipeline np h5file dataset_name =
     bind_exc (classify_datasets np h5file) (\<lambda>r. build_jsonld (fst r) dataset_name)"

section \<open>Vocabulary of the properties\<close>

text \<open>
  What the \<^verbatim>\<open>dict\<close> built by the visitor always satisfies: keys are distinct, each
  descriptor is stored under its own path, and a descriptor without a shape has no
  axis labels.
\<close>

definition keyed_by_path :: "datasets_info \<Rightarrow> bool" where
  "keyed_by_path di = (distinct (map fst di) \<and> (\<forall>ni\<in>set di. path (snd ni) = fst ni))"

definition null_unlabelled :: "datasets_info \<Rightarrow> bool" where
  "null_unlabelled di = (\<forall>ni\<in>set di. shape (snd ni) = None \<longrightarrow> dims (snd ni) = [])"

text \<open>The descriptors of \<open>items\<close> whose evaluation ends in group \<open>g\<close>, in order.\<close>

definition selected ::
  "numpy \<Rightarrow> datasets_info \<Rightarrow> string list \<Rightarrow> grp \<Rightarrow> datasets_info \<Rightarrow> info list" where
  "selected np di cands g items =
     map snd (filter (\<lambda>ni. classify_node np di cands (fst ni) (snd ni) = Inr g) items)"

text \<open>
  numpy on the tags of the examples: \<^verbatim>\<open>float64\<close> and \<^verbatim>\<open>int32\<close> are numbers,
  \<^verbatim>\<open>object\<close> and \<^verbatim>\<open>|S10\<close> are not, and \<^verbatim>\<open>np.dtype\<close> raises on the text that
  \<^verbatim>\<open>str\<close> gives for a compound type such as \<^verbatim>\<open>[('a', '<i4')]\<close>.
\<close>

definition numpy_sample :: numpy where
  "numpy_sample tag =
     (if tag = ''float64'' \<or> tag = ''int32'' then Inr True
      else if tag = ''object'' \<or> tag = ''|S10'' then Inr False
      else Inl TypeError)"

text \<open>
  Scenarios A, B and C of the specification in one file, visited in the order of the
  names. The label of \<^verbatim>\<open>temperature_time\<close> is also an attribute of the dataset, as
  HDF5 stores it.
\<close>

definition scenario :: "(string \<times> h5obj) list" where
  "scenario =
     [(''grp'', Group),
      (''label'', Dataset [3] (Inr ''|S10'') (Inr []) (Inr [''''])),
      (''temperature_time'', Dataset [4, 4] (Inr ''float64'')
         (Inr [(PyStr ''DIMENSION_LABELS'', NdArray [PyStr '''', PyStr ''t''])])
         (Inr ['''', ''t''])),
      (''units'', Dataset [] (Inr ''object'') (Inr []) (Inr [])),
      (''x'', Dataset [10] (Inr ''float64'') (Inr []) (Inr [''''])),
      (''y'', Dataset [10, 5] (Inr ''float64'') (Inr []) (Inr ['''', '''']))]"

definition scenario_info :: datasets_info where
  "scenario_info =
     [(''label'', \<lparr>path = ''label'', shape = Some [3], dtype = ''|S10'', attrs = [],
                   dims = ['''']\<rparr>),
      (''temperature_time'', \<lparr>path = ''temperature_time'', shape = Some [4, 4],
                   dtype = ''float64'',
                   attrs = [(PyStr ''DIMENSION_LABELS'', PyList [PyStr '''', PyStr ''t''])],
                   dims = ['''', ''t'']\<rparr>),
      (''units'', \<lparr>path = ''units'', shape = Some [], dtype = ''object'', attrs = [],
                   dims = []\<rparr>),
      (''x'', \<lparr>path = ''x'', shape = Some [10], dtype = ''float64'', attrs = [],
                   dims = ['''']\<rparr>),
      (''y'', \<lparr>path = ''y'', shape = Some [10, 5], dtype = ''float64'', attrs = [],
                   dims = ['''', '''']\<rparr>)]"

text \<open>A file with a table: h5py gives a compound type, whose text numpy does not parse.\<close>

definition table_file :: "(string \<times> h5obj) list" where
  "table_file =
     [(''table'', Dataset [10] (Inr ''[('a', '<i4')]'') (Inr []) (Inr [''''])),
      (''x'', Dataset [10] (Inr ''float64'') (Inr []) (Inr [''''])),
      (''y'', Dataset [10, 5] (Inr ''float64'') (Inr []) (Inr ['''', '''']))]"

text \<open>A file with a dataset that has a null dataspace, beside a coordinate and a scalar.\<close>

definition null_file :: "(string \<times> h5obj) list" where
  "null_file =
     [(''e'', NullDataset (Inr ''float64'') (Inr [])),
      (''s'', Dataset [] (Inr ''object'') (Inr [])  (Inr [])),
      (''x'', Dataset [10] (Inr ''float64'') (Inr []) (Inr ['''']))]"




subsection \<open>What the document is expected to hold\<close>

text \<open>
  The text of a decoding that did not raise, and the text expected for an attribute key
  or value: the replaced decoding of a \<^verbatim>\<open>numpy.bytes_\<close>, nothing (JSON null) for any
  other value.
\<close>

definition text_of :: "py_exception + pytext \<Rightarrow> pytext" where
  "text_of r = (case r of Inl e \<Rightarrow> [] | Inr t \<Rightarrow> t)"

fun decoded :: "pyval \<Rightarrow> pytext option" where
  "decoded (NpBytes b) = Some (text_of (utf8_decode Replace b))"
| "decoded v = None"

fun is_np_bytes :: "pyval \<Rightarrow> bool" where
  "is_np_bytes (NpBytes b) = True"
| "is_np_bytes v = False"

definition property_of :: "pyval \<times> pyval \<Rightarrow> property_value" where
  "property_of kv =
     \<lparr>pv_type = ''PropertyValue'', pv_name = decoded (fst kv), pv_value = decoded (snd kv)\<rparr>"

definition last_segment :: "string \<Rightarrow> string" where
  "last_segment p = rev (takeWhile (\<lambda>c. c \<noteq> CHR ''/'') (rev p))"

definition entry :: "string \<Rightarrow> info \<Rightarrow> variable" where
  "entry role nfo =
     \<lparr>var_type = ''PropertyValue'',
      var_name = last_segment (path nfo),
      var_dataset = ''/'' @ path nfo,
      var_encodingFormat = ''application/x-hdf5'',
      var_role = role,
      var_additionalProperty = map property_of (attrs nfo)\<rparr>"




text \<open>A classification with attributes: a byte string with a two-byte sequence and an
  undecodable byte, a byte-string key, a plain string, an integer and a list.\<close>

definition attr_example :: classification where
  "attr_example =
     \<lparr>measures_grp =
        [\<lparr>path = ''entry/data/counts'', shape = Some [10, 5], dtype = ''float64'',
          attrs = [(PyStr ''units'', NpBytes [194, 181, 109, 255]),
                   (NpBytes [107], PyInt 3),
                   (PyStr ''long_name'', PyStr ''counts''),
                   (PyStr ''axes'', PyList [PyBytes [120]])],
          dims = ['''', '''']\<rparr>],
      dimensions =
        [\<lparr>path = ''entry/data/x'', shape = Some [10], dtype = ''float64'', attrs = [],
          dims = ['''']\<rparr>],
      attributes =
        [\<lparr>path = ''title'', shape = Some [], dtype = ''object'', attrs = [], dims = []\<rparr>]\<rparr>"

section \<open>Dictionaries and the descriptor collection\<close>

lemma map_of_dict_set: "map_of (dict_set d k v) = (map_of d)(k \<mapsto> v)"
  by (induction d) (auto simp: fun_eq_iff)

lemma keys_dict_set: "fst ` set (dict_set d k v) = insert k (fst ` set d)"
proof -
  have "fst ` set (dict_set d k v) = dom (map_of (dict_set d k v))"
    by (simp add: dom_map_of_conv_image_fst)
  also have "\<dots> = insert k (dom (map_of d))"
    by (simp add: map_of_dict_set)
  finally show ?thesis by (simp add: dom_map_of_conv_image_fst)
qed

lemma distinct_dict_set: "distinct (map fst d) \<Longrightarrow> distinct (map fst (dict_set d k v))"
proof (induction d)
  case Nil
  then show ?case by simp
next
  case (Cons a d)
  have "fst ` set (dict_set d k v) = insert k (fst ` set d)" by (rule keys_dict_set)
  with Cons show ?case by (cases a) auto
qed

lemma set_dict_set: "set (dict_set d k v) \<subseteq> insert (k, v) (set d)"
  by (induction d) (auto split: if_splits)

lemma keyed_dict_set:
  assumes "keyed_by_path di" and "path nfo = name"
  shows "keyed_by_path (dict_set di name nfo)"
proof -
  have "distinct (map fst (dict_set di name nfo))"
    using assms(1) by (simp add: keyed_by_path_def distinct_dict_set)
  moreover have "\<forall>ni\<in>set (dict_set di name nfo). path (snd ni) = fst ni"
    using assms set_dict_set[of di name nfo] by (auto simp: keyed_by_path_def)
  ultimately show ?thesis by (simp add: keyed_by_path_def)
qed

lemma null_unlabelled_dict_set:
  assumes "null_unlabelled di" and "shape nfo = None \<longrightarrow> dims nfo = []"
  shows "null_unlabelled (dict_set di name nfo)"
  using assms set_dict_set [of di name nfo] by (auto simp: null_unlabelled_def)

lemma store_info_Inr:
  assumes "store_info di name shp dtype_read attrs_read labels_read = Inr di'"
  obtains tag items labels where "dtype_read = Inr tag" and "attrs_read = Inr items"
    and "labels_read = Inr labels"
    and "di' = dict_set di name
           \<lparr>path = name, shape = shp, dtype = tag, attrs = attrs_dict items, dims = labels\<rparr>"
  using assms
  by (cases dtype_read; cases attrs_read; cases labels_read)
     (auto simp: store_info_def bind_exc_def)

lemma visitor_invariant:
  assumes "visitor di name obj = Inr di'" and "keyed_by_path di" and "null_unlabelled di"
  shows "keyed_by_path di' \<and> null_unlabelled di'"
proof (cases obj)
  case Group
  with assms show ?thesis by simp
next
  case (Dataset shp dtype_read attrs_read labels_read)
  with assms(1) have "store_info di name (Some shp) dtype_read attrs_read labels_read = Inr di'"
    by simp
  then show ?thesis
    using assms(2,3) by (elim store_info_Inr) (simp add: keyed_dict_set null_unlabelled_dict_set)
next
  case (NullDataset dtype_read attrs_read)
  with assms(1) have "store_info di name None dtype_read attrs_read (Inr []) = Inr di'"
    by simp
  then show ?thesis
    using assms(2,3) by (elim store_info_Inr) (simp add: keyed_dict_set null_unlabelled_dict_set)
qed

lemma visit_from_invariant:
  assumes "visit_from di h5file = Inr di'" and "keyed_by_path di" and "null_unlabelled di"
  shows "keyed_by_path di' \<and> null_unlabelled di'"
  using assms
proof (induction h5file arbitrary: di)
  case Nil
  then show ?case by simp
next
  case (Cons no rest)
  obtain name obj where no: "no = (name, obj)" by (cases no)
  from Cons.prems(1) no obtain di1 where v: "visitor di name obj = Inr di1"
    and r: "visit_from di1 rest = Inr di'"
    by (cases "visitor di name obj") (auto simp: bind_exc_def)
  from visitor_invariant [OF v Cons.prems(2,3)] Cons.IH [OF r] show ?case by simp
qed


lemma visited_null_unlabelled: "visititems h5file = Inr di \<Longrightarrow> null_unlabelled di"
  using visit_from_invariant [of "[]" h5file di]
  by (simp add: visititems_def keyed_by_path_def null_unlabelled_def)

lemma dict_get_iff:
  "distinct (map fst d) \<Longrightarrow> dict_get d k = Inr v \<longleftrightarrow> (k, v) \<in> set d"
proof -
  assume dist: "distinct (map fst d)"
  have "dict_get d k = Inr v \<longleftrightarrow> map_of d k = Some v"
    by (cases "map_of d k") (simp_all add: dict_get_def)
  also have "\<dots> \<longleftrightarrow> (k, v) \<in> set d"
    using dist by (rule map_of_eq_Some_iff)
  finally show ?thesis .
qed

section \<open>The dimension candidates\<close>

lemma set_set_add: "set (set_add s x) = insert x (set s)"
  by (auto simp: set_add_def)

lemma set_label_fold:
  "set (foldl (\<lambda>acc d. if d \<noteq> [] then set_add acc name else acc) s ls)
     = (if \<exists>d\<in>set ls. d \<noteq> [] then insert name (set s) else set s)"
  by (induction ls arbitrary: s) (auto simp: set_set_add)

lemma set_candidate_step:
  "set (fst (candidate_step st ni)) =
     (if \<exists>shp. shape (snd ni) = Some shp \<and>
            (length shp = 1 \<or> (\<exists>d\<in>set (dims (snd ni)). d \<noteq> []))
      then insert (fst ni) (set (fst st)) else set (fst st))"
  by (cases "shape (snd ni)")
     (auto simp: candidate_step_def candidate_body_def Let_def set_label_fold set_set_add)

lemma set_candidates_fold:
  "set (fst (foldl candidate_step st di)) =
     set (fst st) \<union> {n. \<exists>nfo shp. (n, nfo) \<in> set di \<and> shape nfo = Some shp \<and>
                 (length shp = 1 \<or> (\<exists>d\<in>set (dims nfo). d \<noteq> []))}"
proof (induction di arbitrary: st)
  case Nil
  then show ?case by simp
next
  case (Cons ni di)
  show ?case
    by (cases ni) (auto simp: Cons.IH set_candidate_step)
qed

lemma set_dim_candidates:
  "set (fst (dim_candidates di)) =
     {n. \<exists>nfo shp. (n, nfo) \<in> set di \<and> shape nfo = Some shp \<and>
            (length shp = 1 \<or> (\<exists>d\<in>set (dims nfo). d \<noteq> []))}"
  by (simp add: dim_candidates_def set_candidates_fold)

lemma candidates_are_keys: "set (fst (dim_candidates di)) \<subseteq> fst ` set di"
  by (force simp: set_dim_candidates)

lemma candidates_have_shape:
  assumes "distinct (map fst di)" and "n \<in> set (fst (dim_candidates di))"
    and "(n, nfo) \<in> set di"
  shows "shape nfo \<noteq> None"
proof -
  from assms(2) obtain nfo' shp where "(n, nfo') \<in> set di" and "shape nfo' = Some shp"
    by (auto simp: set_dim_candidates)
  moreover from this assms(1,3) have "nfo' = nfo"
    by (meson eq_key_imp_eq_value)
  ultimately show ?thesis by simp
qed

text \<open>The loop prints one line per descriptor without a shape, and nothing else.\<close>

lemma printed_candidate_step:
  "snd (candidate_step st ni) =
     snd st @ (if shape (snd ni) = None
               then [Diagnostic (fst ni) (shape (snd ni)) (dims (snd ni))] else [])"
  by (cases "shape (snd ni)") (simp_all add: candidate_step_def candidate_body_def Let_def)

lemma printed_candidates_fold:
  "snd (foldl candidate_step st di) =
     snd st @ map (\<lambda>ni. Diagnostic (fst ni) (shape (snd ni)) (dims (snd ni)))
                (filter (\<lambda>ni. shape (snd ni) = None) di)"
proof (induction di arbitrary: st)
  case Nil
  then show ?case by simp
next
  case (Cons ni di)
  show ?case
    by (simp add: Cons.IH printed_candidate_step)
qed

text \<open>
  Claim C3. In a descriptor collection, a path is a dimension candidate exactly when its
  descriptor has rank one or carries a non-empty axis label. So a descriptor with a
  non-empty label is a candidate whatever its rank, and a scalar without labels never is;
  neither is a descriptor without a shape. The two hypotheses hold of every collection
  that the visit builds (\<open>visited_keyed\<close>, \<open>visited_null_unlabelled\<close>).
\<close>

theorem C3_candidate_iff:
  assumes "distinct (map fst di)" and "null_unlabelled di"
  shows "(n \<in> set (fst (dim_candidates di)) \<longleftrightarrow>
           (\<exists>nfo. dict_get di n = Inr nfo \<and>
              ((\<exists>a. shape nfo = Some [a]) \<or> (\<exists>d\<in>set (dims nfo). d \<noteq> []))))
       \<and> (\<forall>nfo. dict_get di n = Inr nfo \<and> (\<exists>d\<in>set (dims nfo). d \<noteq> [])
              \<longrightarrow> n \<in> set (fst (dim_candidates di)))
       \<and> (\<forall>nfo. dict_get di n = Inr nfo \<and> shape nfo = Some []
                \<and> (\<forall>d\<in>set (dims nfo). d = [])
              \<longrightarrow> n \<notin> set (fst (dim_candidates di)))
       \<and> (\<forall>nfo. dict_get di n = Inr nfo \<and> shape nfo = None
              \<longrightarrow> n \<notin> set (fst (dim_candidates di)))"
proof -
  have one: "(\<exists>a. shp = [a]) \<longleftrightarrow> length shp = 1" for shp :: "nat list"
    by (cases shp) auto
  have "n \<in> set (fst (dim_candidates di)) \<longleftrightarrow>
          (\<exists>nfo shp. (n, nfo) \<in> set di \<and> shape nfo = Some shp \<and>
              (length shp = 1 \<or> (\<exists>d\<in>set (dims nfo). d \<noteq> [])))"
    by (simp add: set_dim_candidates)
  also have "\<dots> \<longleftrightarrow> (\<exists>nfo. (n, nfo) \<in> set di \<and>
              ((\<exists>a. shape nfo = Some [a]) \<or> (\<exists>d\<in>set (dims nfo). d \<noteq> [])))"
  proof
    assume "\<exists>nfo shp. (n, nfo) \<in> set di \<and> shape nfo = Some shp \<and>
              (length shp = 1 \<or> (\<exists>d\<in>set (dims nfo). d \<noteq> []))"
    then show "\<exists>nfo. (n, nfo) \<in> set di \<and>
              ((\<exists>a. shape nfo = Some [a]) \<or> (\<exists>d\<in>set (dims nfo). d \<noteq> []))"
      using one by auto
  next
    assume "\<exists>nfo. (n, nfo) \<in> set di \<and>
              ((\<exists>a. shape nfo = Some [a]) \<or> (\<exists>d\<in>set (dims nfo). d \<noteq> []))"
    then obtain nfo where in_di: "(n, nfo) \<in> set di"
      and c: "(\<exists>a. shape nfo = Some [a]) \<or> (\<exists>d\<in>set (dims nfo). d \<noteq> [])" by blast
    have "shape nfo \<noteq> None"
    proof
      assume "shape nfo = None"
      with assms(2) in_di have "dims nfo = []" by (force simp: null_unlabelled_def)
      with c \<open>shape nfo = None\<close> show False by simp
    qed
    then obtain shp where "shape nfo = Some shp" by blast
    with in_di c show "\<exists>nfo shp. (n, nfo) \<in> set di \<and> shape nfo = Some shp \<and>
              (length shp = 1 \<or> (\<exists>d\<in>set (dims nfo). d \<noteq> []))"
      by auto
  qed
  finally have "n \<in> set (fst (dim_candidates di)) \<longleftrightarrow>
           (\<exists>nfo. dict_get di n = Inr nfo \<and>
              ((\<exists>a. shape nfo = Some [a]) \<or> (\<exists>d\<in>set (dims nfo). d \<noteq> [])))"
    using assms(1) by (simp add: dict_get_iff)
  moreover have "dims nfo = []" if "dict_get di n = Inr nfo" and "shape nfo = None" for nfo
    using that assms by (auto simp: dict_get_iff null_unlabelled_def)
  ultimately show ?thesis by auto
qed

lemma visititems_scenario: "visititems scenario = Inr scenario_info"
  by (simp add: visititems_def scenario_def scenario_info_def store_info_def bind_exc_def
        attrs_dict_def)

lemma candidates_scenario:
  "fst (dim_candidates scenario_info) = [''label'', ''temperature_time'', ''x'']"
  by (simp add: scenario_info_def dim_candidates_def candidate_step_def candidate_body_def
        set_add_def Let_def)

theorem C3_candidate_iff_witness:
  "visititems scenario = Inr scenario_info
   \<and> distinct (map fst scenario_info) \<and> null_unlabelled scenario_info
   \<and> ''x'' \<in> set (fst (dim_candidates scenario_info))
   \<and> ''temperature_time'' \<in> set (fst (dim_candidates scenario_info))
   \<and> ''y'' \<notin> set (fst (dim_candidates scenario_info))
   \<and> ''units'' \<notin> set (fst (dim_candidates scenario_info))"
proof -
  have d: "distinct (map fst scenario_info)"
    by (simp add: scenario_info_def)
  have u: "null_unlabelled scenario_info"
    by (simp add: scenario_info_def null_unlabelled_def)
  show ?thesis
    using d u visititems_scenario
      C3_candidate_iff [OF d u, of "''x''"] C3_candidate_iff [OF d u, of "''temperature_time''"]
      C3_candidate_iff [OF d u, of "''y''"] C3_candidate_iff [OF d u, of "''units''"]
    by (simp add: scenario_info_def dict_get_def)
qed

section \<open>The classifier\<close>

lemma dict_get_Inr: "dict_get d k = Inr v \<longleftrightarrow> map_of d k = Some v"
  by (cases "map_of d k") (simp_all add: dict_get_def)

lemma dim_lens_raises:
  "dim_lens di it = Inl e \<longleftrightarrow> e = KeyError \<and> (\<exists>d\<in>set it. map_of di d = None)"
proof (induction it)
  case Nil
  then show ?case by simp
next
  case (Cons d it)
  show ?case
  proof (cases "map_of di d")
    case None
    then show ?thesis by (auto simp: dict_get_def)
  next
    case (Some nfo)
    then show ?thesis
      using Cons.IH
      by (cases "dim_lens di it")
         (auto simp: dict_get_def split: option.splits list.splits)
  qed
qed

text \<open>The list of line 54 holds the first axis length of every listed descriptor that
  has a non-empty shape.\<close>

lemma dim_lens_set:
  "dim_lens di it = Inr ls \<Longrightarrow>
     set ls = {n. \<exists>d\<in>set it. \<exists>nfo ns. map_of di d = Some nfo \<and> shape nfo = Some (n # ns)}"
proof (induction it arbitrary: ls)
  case Nil
  then show ?case by simp
next
  case (Cons d it)
  show ?case
  proof (cases "map_of di d")
    case None
    with Cons.prems show ?thesis by (simp add: dict_get_def)
  next
    case (Some nfo)
    consider "shape nfo = None \<or> shape nfo = Some []"
      | n ns where "shape nfo = Some (n # ns)"
      by (metis list.exhaust option.exhaust)
    then show ?thesis
    proof cases
      case 1
      with Some Cons.prems have "dim_lens di it = Inr ls" by (auto simp: dict_get_def)
      from Cons.IH [OF this] Some 1 show ?thesis by auto
    next
      case 2
      with Some Cons.prems obtain ls' where tl: "dim_lens di it = Inr ls'" and ls: "ls = n # ls'"
        by (cases "dim_lens di it") (auto simp: dict_get_def)
      from Cons.IH [OF tl] Some 2 ls show ?thesis by auto
    qed
  qed
qed

lemma dim_lens_total:
  assumes "set it \<subseteq> fst ` set di"
  shows "\<exists>ls. dim_lens di it = Inr ls"
proof (cases "dim_lens di it")
  case (Inl e)
  then obtain d where "d \<in> set it" and "map_of di d = None"
    by (auto simp: dim_lens_raises)
  with assms show ?thesis by (auto simp: map_of_eq_None_iff)
next
  case (Inr ls)
  then show ?thesis by simp
qed

text \<open>The test of line 53 depends on the list only through the set of its elements.\<close>

lemma any_aligned_eq:
  "any_aligned shp ls =
     (case shp of
        None \<Rightarrow> if set ls = {} then Inr False else Inl TypeError
      | Some s \<Rightarrow> Inr (s \<noteq> [] \<and> (\<exists>dim_len\<in>set ls. dim_len \<in> set s)))"
  by (induction ls) (auto split: option.splits)

lemma dim_lens_same_set:
  assumes "set it = set it'"
  shows "bind_exc (dim_lens di it) (any_aligned shp)
       = bind_exc (dim_lens di it') (any_aligned shp)"
proof (cases "dim_lens di it")
  case (Inl e)
  then have "dim_lens di it' = Inl e"
    using assms by (simp add: dim_lens_raises)
  with Inl show ?thesis by simp
next
  case (Inr ls)
  show ?thesis
  proof (cases "dim_lens di it'")
    case (Inl e)
    then have "dim_lens di it = Inl e"
      using assms by (simp add: dim_lens_raises)
    with Inr show ?thesis by simp
  next
    case (Inr ls')
    have "set ls = set ls'"
      using dim_lens_set [OF \<open>dim_lens di it = Inr ls\<close>] dim_lens_set [OF Inr] assms by simp
    then have "any_aligned shp ls = any_aligned shp ls'"
      by (simp only: any_aligned_eq)
    with Inr \<open>dim_lens di it = Inr ls\<close> show ?thesis by (simp add: bind_exc_def)
  qed
qed

lemma classify_node_same_set:
  assumes "set cs = set cs'"
  shows "classify_node np di cs name nfo = classify_node np di cs' name nfo"
proof -
  have "bind_exc (dim_lens di cs) (\<lambda>ls.
          bind_exc (any_aligned (shape nfo) ls) (\<lambda>aligned.
            Inr (if aligned then Measures else Attributes)))
      = bind_exc (bind_exc (dim_lens di cs) (any_aligned (shape nfo))) (\<lambda>aligned.
            Inr (if aligned then Measures else Attributes))" for cs
    by (cases "dim_lens di cs") (simp_all add: bind_exc_def)
  then show ?thesis
    using assms dim_lens_same_set [OF assms, of di "shape nfo"]
    by (simp add: classify_node_def)
qed

lemma classify_loop_same_set:
  assumes "set cs = set cs'"
  shows "classify_loop np di cs = classify_loop np di cs'"
proof -
  have "classify_step np di cs = classify_step np di cs'"
    by (intro ext) (simp add: classify_step_def classify_node_same_set [OF assms])
  then show ?thesis by (simp add: classify_loop_def)
qed

text \<open>The loop appends, group by group, the descriptors that evaluate to the group.\<close>

lemma classify_fold:
  "fst (foldl (classify_step np di cands) (c, out) items) =
     \<lparr>measures_grp = measures_grp c @ selected np di cands Measures items,
      dimensions = dimensions c @ selected np di cands Dimensions items,
      attributes = attributes c @ selected np di cands Attributes items\<rparr>"
proof (induction items arbitrary: c out)
  case Nil
  then show ?case by (simp add: selected_def)
next
  case (Cons ni items)
  show ?case
  proof (cases "classify_node np di cands (fst ni) (snd ni)")
    case (Inl e)
    then have "classify_step np di cands (c, out) ni =
        (c, out @ [NameShape (fst ni) (shape (snd ni)),
                   Diagnostic (fst ni) (shape (snd ni)) (dims (snd ni))])"
      by (simp add: classify_step_def Let_def)
    with Inl show ?thesis
      by (simp add: Cons.IH selected_def)
  next
    case (Inr g)
    then have "classify_step np di cands (c, out) ni =
        (append_to g (snd ni) c, out @ [NameShape (fst ni) (shape (snd ni))])"
      by (simp add: classify_step_def Let_def)
    with Inr show ?thesis
      by (cases g) (simp_all add: Cons.IH selected_def append_to_def)
  qed
qed

lemma classify_loop_groups:
  "fst (classify_loop np di cands) =
     \<lparr>measures_grp = selected np di cands Measures di,
      dimensions = selected np di cands Dimensions di,
      attributes = selected np di cands Attributes di\<rparr>"
  by (simp add: classify_loop_def classify_fold)

lemma in_selected:
  assumes "keyed_by_path di" and "(n, nfo) \<in> set di"
  shows "nfo \<in> set (selected np di cands g di) \<longleftrightarrow> classify_node np di cands n nfo = Inr g"
proof
  assume "nfo \<in> set (selected np di cands g di)"
  then obtain n' where in': "(n', nfo) \<in> set di" and g: "classify_node np di cands n' nfo = Inr g"
    by (auto simp: selected_def)
  from assms(1) in' have "path nfo = n'" by (auto simp: keyed_by_path_def)
  moreover from assms have "path nfo = n" by (auto simp: keyed_by_path_def)
  ultimately have "n' = n" by simp
  with g show "classify_node np di cands n nfo = Inr g" by simp
next
  assume "classify_node np di cands n nfo = Inr g"
  with assms(2) show "nfo \<in> set (selected np di cands g di)"
    by (force simp: selected_def)
qed

text \<open>What the loop prints: the line of line 43 for every descriptor, followed by the
  line of line 59 when its evaluation raises.\<close>

lemma printed_classify_fold:
  "snd (foldl (classify_step np di cands) (c, out) items) =
     out @ concat (map (\<lambda>ni.
       NameShape (fst ni) (shape (snd ni)) #
         (case classify_node np di cands (fst ni) (snd ni) of
            Inl e \<Rightarrow> [Diagnostic (fst ni) (shape (snd ni)) (dims (snd ni))]
          | Inr g \<Rightarrow> [])) items)"
proof (induction items arbitrary: c out)
  case Nil
  then show ?case by simp
next
  case (Cons ni items)
  show ?case
  proof (cases "classify_node np di cands (fst ni) (snd ni)")
    case (Inl e)
    then have "classify_step np di cands (c, out) ni =
        (c, out @ [NameShape (fst ni) (shape (snd ni)),
                   Diagnostic (fst ni) (shape (snd ni)) (dims (snd ni))])"
      by (simp add: classify_step_def Let_def)
    with Inl show ?thesis
      by (simp add: Cons.IH)
  next
    case (Inr g)
    then have "classify_step np di cands (c, out) ni =
        (append_to g (snd ni) c, out @ [NameShape (fst ni) (shape (snd ni))])"
      by (simp add: classify_step_def Let_def)
    with Inr show ?thesis
      by (simp add: Cons.IH)
  qed
qed

lemmas classify_eval =
  classify_datasets_def classify_loop_def dim_candidates_def candidate_step_def
  candidate_body_def set_add_def classify_step_def classify_node_def append_to_def
  dict_get_def lower_def lower_char_def visititems_def store_info_def bind_exc_def
  attrs_dict_def Let_def

text \<open>\<open>str_contains\<close> is the substring test, and the evaluation of one descriptor in
  each of the two branches of line 45.\<close>

lemma str_contains_iff: "str_contains sub s \<longleftrightarrow> (\<exists>pre post. s = pre @ sub @ post)"
proof (induction s)
  case Nil
  then show ?case by auto
next
  case (Cons c cs)
  show ?case
  proof
    assume "str_contains sub (c # cs)"
    then consider "take (length sub) (c # cs) = sub" | "str_contains sub cs" by auto
    then show "\<exists>pre post. c # cs = pre @ sub @ post"
    proof cases
      case 1
      then have "c # cs = [] @ sub @ drop (length sub) (c # cs)"
        by (metis append_Nil append_take_drop_id)
      then show ?thesis by blast
    next
      case 2
      with Cons.IH obtain pre post where "cs = pre @ sub @ post" by blast
      then have "c # cs = (c # pre) @ sub @ post" by simp
      then show ?thesis by blast
    qed
  next
    assume "\<exists>pre post. c # cs = pre @ sub @ post"
    then obtain pre post where eq: "c # cs = pre @ sub @ post" by blast
    show "str_contains sub (c # cs)"
    proof (cases pre)
      case Nil
      with eq have "take (length sub) (c # cs) = sub" by simp
      then show ?thesis by simp
    next
      case (Cons p pre')
      with eq have "cs = pre' @ sub @ post" by simp
      with Cons.IH have "str_contains sub cs" by blast
      then show ?thesis by simp
    qed
  qed
qed

lemma classify_node_candidate:
  assumes "n \<in> set cands"
  shows "classify_node np di cands n nfo =
     (case np (dtype nfo) of
        Inl e \<Rightarrow> Inl e
      | Inr numeric \<Rightarrow>
          Inr (if numeric \<or> str_contains ''time'' (lower n) then Dimensions else Attributes))"
  using assms by (simp add: classify_node_def bind_exc_def)

text \<open>
  The evaluation of a descriptor that is not a candidate. With a shape it never raises.
  Without a shape (\<^verbatim>\<open>None\<close>) line 53 raises as soon as some candidate has given an
  axis length to the list of line 54.
\<close>

lemma classify_node_non_candidate:
  assumes "n \<notin> set (fst (dim_candidates di))"
  shows "classify_node np di (fst (dim_candidates di)) n nfo =
     (case shape nfo of
        None \<Rightarrow>
          if \<exists>d\<in>set (fst (dim_candidates di)). \<exists>c a as.
               dict_get di d = Inr c \<and> shape c = Some (a # as)
          then Inl TypeError else Inr Attributes
      | Some s \<Rightarrow>
          Inr (if s \<noteq> [] \<and>
                  (\<exists>d\<in>set (fst (dim_candidates di)). \<exists>c a as.
                      dict_get di d = Inr c \<and> shape c = Some (a # as) \<and> a \<in> set s)
               then Measures else Attributes))"
proof -
  obtain ls where ls: "dim_lens di (fst (dim_candidates di)) = Inr ls"
    using dim_lens_total [OF candidates_are_keys] by blast
  have set_ls: "set ls = {a. \<exists>d\<in>set (fst (dim_candidates di)). \<exists>c as.
                    dict_get di d = Inr c \<and> shape c = Some (a # as)}"
    unfolding dim_lens_set [OF ls] dict_get_Inr by blast
  show ?thesis
  proof (cases "shape nfo")
    case None
    have "set ls = {} \<longleftrightarrow> \<not> (\<exists>d\<in>set (fst (dim_candidates di)). \<exists>c a as.
               dict_get di d = Inr c \<and> shape c = Some (a # as))"
      unfolding set_ls by blast
    with None assms ls show ?thesis
      by (simp add: classify_node_def bind_exc_def any_aligned_eq del: set_empty)
  next
    case (Some s)
    have "(\<exists>dim_len\<in>set ls. dim_len \<in> set s) \<longleftrightarrow>
          (\<exists>d\<in>set (fst (dim_candidates di)). \<exists>c a as.
                      dict_get di d = Inr c \<and> shape c = Some (a # as) \<and> a \<in> set s)"
      unfolding set_ls by blast
    with Some assms ls show ?thesis
      by (simp add: classify_node_def bind_exc_def any_aligned_eq)
  qed
qed

text \<open>
  A descriptor that is not a candidate and has a shape goes to the measures exactly when
  the shape is not empty and holds, at some axis, the first axis length of a candidate
  with a non-empty shape; otherwise it goes to the attributes, never to the dimensions.
\<close>

lemma non_candidate_with_shape:
  assumes "keyed_by_path di" and "(n, nfo) \<in> set di"
    and "n \<notin> set (fst (dim_candidates di))" and "shape nfo = Some s"
  shows "(nfo \<in> set (measures_grp (fst (classify_loop np di (fst (dim_candidates di))))) \<longleftrightarrow>
            s \<noteq> [] \<and>
             (\<exists>d\<in>set (fst (dim_candidates di)). \<exists>c a as.
                 dict_get di d = Inr c \<and> shape c = Some (a # as) \<and> a \<in> set s))
       \<and> (nfo \<in> set (attributes (fst (classify_loop np di (fst (dim_candidates di))))) \<longleftrightarrow>
            \<not> (s \<noteq> [] \<and>
             (\<exists>d\<in>set (fst (dim_candidates di)). \<exists>c a as.
                 dict_get di d = Inr c \<and> shape c = Some (a # as) \<and> a \<in> set s)))
       \<and> nfo \<notin> set (dimensions (fst (classify_loop np di (fst (dim_candidates di)))))"
  using assms(4)
  by (simp add: classify_loop_groups in_selected [OF assms(1,2)]
        classify_node_non_candidate [OF assms(3)])

text \<open>
  Where each descriptor of the collection ends up: in the group its evaluation names and
  in no other; in no group at all when the evaluation raises.
\<close>

lemma classified_by_evaluation:
  assumes "keyed_by_path di" and "(n, nfo) \<in> set di"
  shows "(nfo \<in> set (measures_grp (fst (classify_loop np di cands))) \<longleftrightarrow>
            classify_node np di cands n nfo = Inr Measures)
       \<and> (nfo \<in> set (dimensions (fst (classify_loop np di cands))) \<longleftrightarrow>
            classify_node np di cands n nfo = Inr Dimensions)
       \<and> (nfo \<in> set (attributes (fst (classify_loop np di cands))) \<longleftrightarrow>
            classify_node np di cands n nfo = Inr Attributes)"
  by (simp add: classify_loop_groups in_selected [OF assms])

text \<open>
  An evaluation raises in two cases only: for a candidate whose type tag numpy does not
  read, and for a descriptor without a shape when some candidate has a non-empty shape.
\<close>

lemma classify_node_raises:
  "classify_node np di (fst (dim_candidates di)) n nfo = Inl e \<longleftrightarrow>
     (n \<in> set (fst (dim_candidates di)) \<and> np (dtype nfo) = Inl e)
     \<or> (n \<notin> set (fst (dim_candidates di)) \<and> shape nfo = None \<and> e = TypeError
          \<and> (\<exists>d\<in>set (fst (dim_candidates di)). \<exists>c a as.
                dict_get di d = Inr c \<and> shape c = Some (a # as)))"
proof (cases "n \<in> set (fst (dim_candidates di))")
  case True
  then show ?thesis
    by (cases "np (dtype nfo)") (simp_all add: classify_node_candidate)
next
  case False
  then show ?thesis
    by (cases "shape nfo") (auto simp: classify_node_non_candidate)
qed

text \<open>
  Claim C5 fails on the code. In \<open>null_file\<close> the dataset \<^verbatim>\<open>e\<close> has a null dataspace,
  so its shape is \<^verbatim>\<open>None\<close>. It is not a candidate (line 31 raises, line 39 prints).
  In line 53 \<^verbatim>\<open>len(None)\<close> raises because the candidate \<^verbatim>\<open>x\<close> has given the length
  10 to the list; the handler of line 59 prints, and \<^verbatim>\<open>e\<close> is appended neither to the
  measures nor to the attributes.
\<close>

theorem C5_null_dataspace_dropped:
  "bind_exc (visititems null_file) (\<lambda>di. Inr (map fst di, fst (dim_candidates di)))
     = Inr ([''e'', ''s'', ''x''], [''x''])
   \<and> classify_datasets numpy_sample null_file =
       Inr (\<lparr>measures_grp = [],
             dimensions =
               [\<lparr>path = ''x'', shape = Some [10], dtype = ''float64'', attrs = [],
                 dims = ['''']\<rparr>],
             attributes =
               [\<lparr>path = ''s'', shape = Some [], dtype = ''object'', attrs = [], dims = []\<rparr>]\<rparr>,
            [Diagnostic ''e'' None [],
             NameShape ''e'' None, Diagnostic ''e'' None [],
             NameShape ''s'' (Some []),
             NameShape ''x'' (Some [10])])"
  by (simp add: classify_eval null_file_def numpy_sample_def)




text \<open>
  Claim C1 fails on the code. In \<open>table_file\<close> the dataset \<^verbatim>\<open>table\<close> is a key of the
  descriptor collection and is in none of the three groups.
\<close>

theorem C1_table_in_no_group:
  "bind_exc (visititems table_file) (\<lambda>di. Inr (map fst di)) = Inr [''table'', ''x'', ''y'']
   \<and> bind_exc (classify_datasets numpy_sample table_file)
        (\<lambda>r. Inr (map path (measures_grp (fst r)), map path (dimensions (fst r)),
                   map path (attributes (fst r))))
       = Inr ([''y''], [''x''], [])"
  by (simp add: classify_eval table_file_def numpy_sample_def)

text \<open>
  Claim C2 fails on the code. The evaluation of \<^verbatim>\<open>table\<close> raises; the handler prints
  its path, shape and labels, the loop goes on to \<^verbatim>\<open>x\<close> and \<^verbatim>\<open>y\<close>, and \<^verbatim>\<open>table\<close>
  is not appended to the attributes.
\<close>

theorem C2_table_reported_and_dropped:
  "classify_datasets numpy_sample table_file =
     Inr (\<lparr>measures_grp =
             [\<lparr>path = ''y'', shape = Some [10, 5], dtype = ''float64'', attrs = [],
               dims = ['''', '''']\<rparr>],
           dimensions =
             [\<lparr>path = ''x'', shape = Some [10], dtype = ''float64'', attrs = [],
               dims = ['''']\<rparr>],
           attributes = []\<rparr>,
          [NameShape ''table'' (Some [10]), Diagnostic ''table'' (Some [10]) [''''],
           NameShape ''x'' (Some [10]), NameShape ''y'' (Some [10, 5])])"
  by (simp add: classify_eval table_file_def numpy_sample_def)

section \<open>Decoding and the assembler\<close>

lemma emit_Inr: "emit cp (Inr t) = Inr (cp # t)"
  by (simp add: emit_def bind_exc_def)


lemma decode_error_replace: "decode_error Replace (Inr t) = Inr (65533 # t)"
  by (simp add: decode_error_def emit_def bind_exc_def)


lemma utf8_replace_total: "\<exists>t. utf8_decode Replace bs = Inr t"
proof (induction bs rule: length_induct)
  case (1 bs)
  show ?case
  proof (cases bs)
    case Nil
    then show ?thesis by simp
  next
    case (Cons b r)
    obtain c k where step: "utf8_next b r = (c, k)" by (cases "utf8_next b r")
    have "length (drop k r) < length bs" using Cons by simp
    with 1 obtain t where "utf8_decode Replace (drop k r) = Inr t" by blast
    with Cons step show ?thesis
      by (cases c) (simp_all add: emit_Inr decode_error_replace)
  qed
qed

lemma utf8_replace_text: "utf8_decode Replace bs = Inr (text_of (utf8_decode Replace bs))"
  using utf8_replace_total [of bs] by (auto simp: text_of_def)


lemma checkForBytes_decoded: "checkForBytes v = Inr (decoded v)"
proof (cases v)
  case (NpBytes b)
  obtain t where "utf8_decode Replace b = Inr t" using utf8_replace_total by blast
  with NpBytes show ?thesis by (simp add: bind_exc_def text_of_def)
qed simp_all

lemma additional_properties_map: "additional_properties kvs = Inr (map property_of kvs)"
  by (induction kvs) (auto simp: checkForBytes_decoded bind_exc_def property_of_def)

lemma split_on_not_empty: "split_on sep s \<noteq> []"
  by (induction s) (auto split: list.splits)

lemma split_on_no_sep: "sep \<notin> set s \<Longrightarrow> split_on sep s = [s]"
  by (induction s) auto

lemma split_on_two: "sep \<in> set s \<Longrightarrow> \<exists>w v ws. split_on sep s = w # v # ws"
proof (induction s)
  case Nil
  then show ?case by simp
next
  case (Cons c s)
  show ?case
  proof (cases "c = sep")
    case True
    then show ?thesis
      using split_on_not_empty [of sep s] by (cases "split_on sep s") auto
  next
    case False
    with Cons.prems have "sep \<in> set s" by simp
    with Cons.IH obtain w v ws where "split_on sep s = w # v # ws" by blast
    with False show ?thesis by simp
  qed
qed

lemma last_split_on_sep: "last (split_on sep (a @ sep # b)) = last (split_on sep b)"
proof (induction a)
  case Nil
  then show ?case by (simp add: split_on_not_empty)
next
  case (Cons c a)
  show ?case
  proof (cases "c = sep")
    case True
    with Cons show ?thesis by (simp add: split_on_not_empty)
  next
    case False
    obtain w v ws where "split_on sep (a @ sep # b) = w # v # ws"
      using split_on_two [of sep "a @ sep # b"] by auto
    with False Cons show ?thesis by simp
  qed
qed

lemma last_split_slash: "last (split_on CHR ''/'' p) = last_segment p"
proof (cases "CHR ''/'' \<in> set p")
  case False
  then have tw: "takeWhile (\<lambda>c. c \<noteq> CHR ''/'') (rev p) = rev p"
    by auto
  show ?thesis
    unfolding last_segment_def tw using False by (simp add: split_on_no_sep)
next
  case True
  then obtain a b where p: "p = a @ CHR ''/'' # b" and b: "CHR ''/'' \<notin> set b"
    by (auto dest: split_list_last)
  have "takeWhile (\<lambda>c. c \<noteq> CHR ''/'') (rev b @ CHR ''/'' # rev a) = rev b"
    using b by (subst takeWhile_append2) auto
  then have "last_segment p = b"
    by (simp add: last_segment_def p)
  with p b show ?thesis
    by (simp add: last_split_on_sep split_on_no_sep)
qed

lemma add_var_entry:
  "add_var doc nfo role =
     Inr (doc\<lparr>variableMeasured := variableMeasured doc @ [entry role nfo]\<rparr>)"
  by (simp add: add_var_def last_item_def split_on_not_empty bind_exc_def
        additional_properties_map last_split_slash entry_def)

lemma add_vars_entries:
  "add_vars doc infos role =
     Inr (doc\<lparr>variableMeasured := variableMeasured doc @ map (entry role) infos\<rparr>)"
  by (induction infos arbitrary: doc) (simp_all add: add_var_entry bind_exc_def)

lemma build_jsonld_document:
  "build_jsonld c dataset_name =
     Inr \<lparr>ld_context = [(''@vocab'', ''https://schema.org/''),
                         (''ddi'', ''https://ddi-alliance.org/ns/cdi#'')],
          ld_type = ''Dataset'',
          ld_name = dataset_name,
          variableMeasured =
            map (entry ''Measure'') (measures_grp c) @ map (entry ''Dimension'') (dimensions c)
              @ map (entry ''Attribute'') (attributes c)\<rparr>"
  by (simp add: build_jsonld_def add_vars_entries bind_exc_def)

section \<open>Decoding inverts encoding\<close>




















text \<open>
  Claim C7. \<^verbatim>\<open>checkForBytes\<close> returns \<^verbatim>\<open>None\<close> for every value that is not a
  \<^verbatim>\<open>numpy.bytes_\<close>. So in the document the name of a property is null when the
  attribute key is not a numpy byte string, and its value is null when the attribute
  value is not one: such keys and values do not reach the document.
\<close>

theorem C7_non_bytes_none:
  assumes "build_jsonld c dataset_name = Inr doc"
    and "i < length (measures_grp c @ dimensions c @ attributes c)"
    and "j < length (attrs ((measures_grp c @ dimensions c @ attributes c) ! i))"
  shows "(\<not> is_np_bytes v \<longrightarrow> checkForBytes v = Inr None)
       \<and> (\<not> is_np_bytes (fst (attrs ((measures_grp c @ dimensions c @ attributes c) ! i) ! j))
            \<longrightarrow> pv_name (var_additionalProperty (variableMeasured doc ! i) ! j) = None)
       \<and> (\<not> is_np_bytes (snd (attrs ((measures_grp c @ dimensions c @ attributes c) ! i) ! j))
            \<longrightarrow> pv_value (var_additionalProperty (variableMeasured doc ! i) ! j) = None)"
proof -
  let ?infos = "measures_grp c @ dimensions c @ attributes c"
  have none: "\<not> is_np_bytes w \<Longrightarrow> decoded w = None" for w
    by (cases w) simp_all
  have doc: "variableMeasured doc =
      map (entry ''Measure'') (measures_grp c) @ map (entry ''Dimension'') (dimensions c)
        @ map (entry ''Attribute'') (attributes c)"
    using assms(1) by (auto simp: build_jsonld_document)
  have props: "map var_additionalProperty (variableMeasured doc) =
          map (\<lambda>nfo. map property_of (attrs nfo)) ?infos"
    unfolding doc by (simp add: entry_def comp_def)
  have len: "i < length (variableMeasured doc)"
    using assms(2) unfolding doc by simp
  have "var_additionalProperty (variableMeasured doc ! i) =
          map var_additionalProperty (variableMeasured doc) ! i"
    using len by (rule nth_map [symmetric])
  also have "\<dots> = map (\<lambda>nfo. map property_of (attrs nfo)) ?infos ! i"
    by (simp only: props)
  also have "\<dots> = map property_of (attrs (?infos ! i))"
    using assms(2) by (rule nth_map)
  finally have p: "var_additionalProperty (variableMeasured doc ! i) ! j =
          property_of (attrs (?infos ! i) ! j)"
    using assms(3) by simp
  show ?thesis
    unfolding p by (simp add: property_of_def none checkForBytes_decoded)
qed

theorem C7_non_bytes_none_witness:
  "(\<exists>doc. build_jsonld attr_example ''HDF5 Dataset'' = Inr doc
      \<and> pv_name (var_additionalProperty (variableMeasured doc ! 0) ! 2) = None
      \<and> pv_value (var_additionalProperty (variableMeasured doc ! 0) ! 2) = None
      \<and> pv_value (var_additionalProperty (variableMeasured doc ! 0) ! 1) = None)
   \<and> checkForBytes (PyStr ''long_name'') = Inr None
   \<and> checkForBytes (PyInt 3) = Inr None"
proof -
  obtain doc where doc: "build_jsonld attr_example ''HDF5 Dataset'' = Inr doc"
    by (simp add: build_jsonld_document)
  have i: "0 < length (measures_grp attr_example @ dimensions attr_example
                        @ attributes attr_example)"
    by (simp add: attr_example_def)
  have j2: "2 < length (attrs ((measures_grp attr_example @ dimensions attr_example
                        @ attributes attr_example) ! 0))"
    by (simp add: attr_example_def)
  have j1: "1 < length (attrs ((measures_grp attr_example @ dimensions attr_example
                        @ attributes attr_example) ! 0))"
    by (simp add: attr_example_def)
  show ?thesis
    using doc C7_non_bytes_none [OF doc i j2, of "PyStr ''long_name''"]
      C7_non_bytes_none [OF doc i j1, of "PyInt 3"]
    by (simp add: attr_example_def)
qed








text \<open>
  Claim C10. A \<^verbatim>\<open>dict\<close> is iterated in insertion order, so on the same collection
  the one thing Python leaves open between two runs is the order in which the set
  \<^verbatim>\<open>dim_candidates\<close> is iterated in line 54 (string hashes differ from run to run).
  Whatever sequences \<open>it1\<close> and \<open>it2\<close> the two runs iterate, they assemble the same
  document and print the same lines; when the collection is the one visited in the
  file, the document is the one of \<open>pipeline\<close>. When the visit raises, no set has been
  built yet, and the pipeline raises the same exception in every run.
\<close>

theorem C10_same_document:
  assumes "set it1 = set (fst (dim_candidates di))"
    and "set it2 = set (fst (dim_candidates di))"
  shows "build_jsonld (fst (classify_loop np di it1)) dataset_name =
           build_jsonld (fst (classify_loop np di it2)) dataset_name
       \<and> snd (classify_loop np di it1) = snd (classify_loop np di it2)
       \<and> (visititems h5file = Inr di \<longrightarrow>
            build_jsonld (fst (classify_loop np di it1)) dataset_name =
              pipeline np h5file dataset_name)
       \<and> (visititems h5file = Inl e \<longrightarrow> pipeline np h5file dataset_name = Inl e)"
proof -
  have "classify_loop np di it1 = classify_loop np di (fst (dim_candidates di))"
    using assms(1) by (rule classify_loop_same_set)
  moreover have "classify_loop np di it2 = classify_loop np di (fst (dim_candidates di))"
    using assms(2) by (rule classify_loop_same_set)
  ultimately show ?thesis
    by (simp add: pipeline_def classify_datasets_def bind_exc_def Let_def)
qed

theorem C10_same_document_witness:
  "visititems scenario = Inr scenario_info
   \<and> build_jsonld (fst (classify_loop numpy_sample scenario_info
        [''temperature_time'', ''label'', ''x''])) ''HDF5 Dataset'' =
     pipeline numpy_sample scenario ''HDF5 Dataset''
   \<and> build_jsonld (fst (classify_loop numpy_sample scenario_info
        [''temperature_time'', ''label'', ''x''])) ''HDF5 Dataset'' =
     build_jsonld (fst (classify_loop numpy_sample scenario_info
        [''x'', ''temperature_time'', ''label''])) ''HDF5 Dataset''"
proof -
  have a: "set [''temperature_time'', ''label'', ''x''] = set (fst (dim_candidates scenario_info))"
    by (auto simp: candidates_scenario)
  have b: "set [''x'', ''temperature_time'', ''label''] = set (fst (dim_candidates scenario_info))"
    by (auto simp: candidates_scenario)
  show ?thesis
    using visititems_scenario
      C10_same_document [OF a b, where np = numpy_sample
        and dataset_name = "''HDF5 Dataset''" and h5file = scenario]
    by blast
qed


end
